theory Spec2Isabelle
  imports Main "HOL-Library.Multiset" "HOL-Library.Sublist"
begin

unbundle bit_operations_syntax

section \<open>Go values: strings, bytes, runes, run-time panics\<close>

text \<open>
  A Go \<^verbatim>\<open>string\<close> is a sequence of bytes, here a \<^typ>\<open>string\<close> whose \<^typ>\<open>char\<close>s
  are the bytes: \<^verbatim>\<open>len(s)\<close> is the number of bytes and \<^verbatim>\<open>s[i]\<close> is the byte at
  index \<open>i\<close>. A \<^verbatim>\<open>rune\<close> is an \<^verbatim>\<open>int32\<close> code point; every value computed below
  lies in \<open>0 .. 0x1FFFFF\<close>, so \<^typ>\<open>int\<close> holds it without wrap-around. Indices are
  Go \<^verbatim>\<open>int\<close>s, kept as \<^typ>\<open>int\<close> so that \<open>i - 2\<close> may go negative in the model as it
  may in the program. An index expression out of range panics; the panic is the value
  \<open>Inl IndexOutOfRange\<close>.
\<close>

type_synonym rune = int

datatype fault = IndexOutOfRange

definition byte :: "char \<Rightarrow> int" where
  "byte c = of_char c"

definition len :: "string \<Rightarrow> int" where
  "len s = int (length s)"

definition string_index :: "string \<Rightarrow> int \<Rightarrow> fault + char" where
  "string_index s i = (if 0 \<le> i \<and> i < len s then Inr (s ! nat i) else Inl IndexOutOfRange)"

subsection \<open>Iterating a string by code point\<close>

text \<open>
  \<^verbatim>\<open>for _, c := range password\<close> and the regular-expression matcher read the string
  as UTF-8: a byte below \<^verbatim>\<open>RuneSelf\<close> is its own code point; otherwise the Go runtime's
  \<^verbatim>\<open>decoderune\<close> decodes a two, three or four byte sequence, and anything that is not
  a well-formed shortest encoding of a code point outside the surrogates yields
  \<^verbatim>\<open>RuneError\<close> and advances by one byte. The decoder is part of the Go runtime, not
  of the repository; it is written out here after the runtime's source.
\<close>

definition RuneSelf :: int where "RuneSelf = 0x80"
definition RuneError :: rune where "RuneError = 0xFFFD"
definition MaxRune :: rune where "MaxRune = 0x10FFFF"
definition MaxLatin1 :: rune where "MaxLatin1 = 0xFF"

definition continuation :: "char \<Rightarrow> bool" where
  "continuation c = (0x80 \<le> byte c \<and> byte c \<le> 0xBF)"

definition decoderune :: "string \<Rightarrow> rune \<times> nat" where
  "decoderune s =
     (if s = [] then (RuneError, 1)
      else if 0xC0 \<le> byte (s ! 0) \<and> byte (s ! 0) < 0xE0 then
        (if length s > 1 \<and> continuation (s ! 1) then
           (let r = push_bit 6 (byte (s ! 0) AND 0x1F) OR (byte (s ! 1) AND 0x3F)
            in if 0x7F < r then (r, 2) else (RuneError, 1))
         else (RuneError, 1))
      else if 0xE0 \<le> byte (s ! 0) \<and> byte (s ! 0) < 0xF0 then
        (if length s > 2 \<and> continuation (s ! 1) \<and> continuation (s ! 2) then
           (let r = push_bit 12 (byte (s ! 0) AND 0x0F) OR push_bit 6 (byte (s ! 1) AND 0x3F)
                      OR (byte (s ! 2) AND 0x3F)
            in if 0x7FF < r \<and> \<not> (0xD800 \<le> r \<and> r \<le> 0xDFFF) then (r, 3) else (RuneError, 1))
         else (RuneError, 1))
      else if 0xF0 \<le> byte (s ! 0) \<and> byte (s ! 0) < 0xF8 then
        (if length s > 3 \<and> continuation (s ! 1) \<and> continuation (s ! 2) \<and> continuation (s ! 3) then
           (let r = push_bit 18 (byte (s ! 0) AND 0x07) OR push_bit 12 (byte (s ! 1) AND 0x3F)
                      OR push_bit 6 (byte (s ! 2) AND 0x3F) OR (byte (s ! 3) AND 0x3F)
            in if 0xFFFF < r \<and> r \<le> MaxRune then (r, 4) else (RuneError, 1))
         else (RuneError, 1))
      else (RuneError, 1))"

function runes :: "string \<Rightarrow> rune list" where
  "runes s =
     (if s = [] then []
      else if byte (s ! 0) < RuneSelf then byte (s ! 0) # runes (drop 1 s)
      else (case decoderune s of (r, width) \<Rightarrow> r # runes (drop width s)))"
  by pat_completeness auto
termination
  by (relation "measure length")
     (auto simp: decoderune_def Let_def split: if_splits)

declare runes.simps [simp del]

subsection \<open>The standard-library predicates the rules call\<close>

text \<open>
  \<^verbatim>\<open>unicode.IsUpper\<close> and \<^verbatim>\<open>unicode.IsDigit\<close> decide a Latin-1 rune from its value
  and look any other rune up in the Unicode range tables \<^verbatim>\<open>unicode.Upper\<close> and
  \<^verbatim>\<open>unicode.Digit\<close>. The tables are data of the standard library; they are taken as
  parameters, so every statement below holds for whatever the tables contain.
\<close>

record unicode_tables =
  Upper :: "rune \<Rightarrow> bool"
  Digit :: "rune \<Rightarrow> bool"

definition unicode_IsUpper :: "unicode_tables \<Rightarrow> rune \<Rightarrow> bool" where
  "unicode_IsUpper T r =
     (if 0 \<le> r \<and> r \<le> MaxLatin1
      then (0x41 \<le> r \<and> r \<le> 0x5A) \<or> (0xC0 \<le> r \<and> r \<le> 0xD6) \<or> (0xD8 \<le> r \<and> r \<le> 0xDE)
      else Upper T r)"

definition unicode_IsDigit :: "unicode_tables \<Rightarrow> rune \<Rightarrow> bool" where
  "unicode_IsDigit T r =
     (if r \<le> MaxLatin1 then 0x30 \<le> r \<and> r \<le> 0x39 else Digit T r)"

text \<open>
  \<^verbatim>\<open>strings.Contains(s, substr)\<close>: \<open>substr\<close> occurs in \<open>s\<close> as a contiguous run
  of bytes.
\<close>

fun strings_Contains :: "string \<Rightarrow> string \<Rightarrow> bool" where
  "strings_Contains [] substr = (substr = [])"
| "strings_Contains (c # cs) substr = (prefix substr (c # cs) \<or> strings_Contains cs substr)"

text \<open>
  The pattern of \<^verbatim>\<open>specialCharValidator\<close> is one character class, unanchored:
  \<^verbatim>\<open>MatchString\<close> holds when some code point of the input is in the class.
\<close>

definition specialCharClass :: string where
  \<open>specialCharClass = ''!@#$%^&*(),.?":{}|<>''\<close>

definition re_MatchString :: "string \<Rightarrow> bool" where
  "re_MatchString s = list_ex (\<lambda>r. r \<in> byte ` set specialCharClass) (runes s)"

section \<open>The validators\<close>

text \<open>
  \<^verbatim>\<open>type Validator func(password string) string\<close>: a rule returns its diagnostic, or
  the empty string when the input passes. A call either returns (\<open>Inr\<close>) or panics
  (\<open>Inl\<close>).
\<close>

type_synonym Validator = "string \<Rightarrow> fault + string"

definition lengthValidator :: Validator where
  "lengthValidator password =
     (if len password < 8 then Inr ''Password must be at least 8 characters long.''
      else Inr '''')"

fun uppercaseValidator_range :: "unicode_tables \<Rightarrow> rune list \<Rightarrow> string" where
  "uppercaseValidator_range T [] = ''Password must contain at least one uppercase letter.''"
| "uppercaseValidator_range T (c # cs) =
     (if unicode_IsUpper T c then '''' else uppercaseValidator_range T cs)"

definition uppercaseValidator :: "unicode_tables \<Rightarrow> Validator" where
  "uppercaseValidator T password = Inr (uppercaseValidator_range T (runes password))"

definition specialCharValidator :: Validator where
  "specialCharValidator password =
     (if \<not> re_MatchString password
      then Inr ''Password must include at least one special character.''
      else Inr '''')"

fun digitValidator_range :: "unicode_tables \<Rightarrow> rune list \<Rightarrow> string" where
  "digitValidator_range T [] = ''Password must contain at least one digit.''"
| "digitValidator_range T (c # cs) =
     (if unicode_IsDigit T c then '''' else digitValidator_range T cs)"

definition digitValidator :: "unicode_tables \<Rightarrow> Validator" where
  "digitValidator T password = Inr (digitValidator_range T (runes password))"

definition spaceValidator :: Validator where
  "spaceValidator password =
     (if strings_Contains password '' '' then Inr ''Password must not contain spaces.''
      else Inr '''')"

definition commonPasswords :: "string list" where
  "commonPasswords =
     [''password'', ''123456'', ''qwerty'', ''letmein'', ''welcome'', ''admin'', ''abc123'']"

fun commonPasswordValidator_range :: "string \<Rightarrow> string list \<Rightarrow> string" where
  "commonPasswordValidator_range password [] = ''''"
| "commonPasswordValidator_range password (common # rest) =
     (if password = common then ''Password is too common.''
      else commonPasswordValidator_range password rest)"

definition commonPasswordValidator :: Validator where
  "commonPasswordValidator password = Inr (commonPasswordValidator_range password commonPasswords)"

text \<open>
  \<^verbatim>\<open>for i := 2; i < len(password); i++\<close>, with the three index expressions checked as
  the Go runtime checks them, in the order \<^verbatim>\<open>&&\<close> evaluates them.
\<close>

definition repeatMessage :: string where
  "repeatMessage = ''Password must not have more than 2 repeated characters in a row.''"

function repeatingCharsValidator_for :: "string \<Rightarrow> int \<Rightarrow> fault + string" where
  "repeatingCharsValidator_for password i =
     (if i < len password then
        (case string_index password i of
           Inl f \<Rightarrow> Inl f
         | Inr a \<Rightarrow>
            (case string_index password (i - 1) of
               Inl f \<Rightarrow> Inl f
             | Inr b \<Rightarrow>
                (if a = b then
                   (case string_index password (i - 1) of
                      Inl f \<Rightarrow> Inl f
                    | Inr b' \<Rightarrow>
                       (case string_index password (i - 2) of
                          Inl f \<Rightarrow> Inl f
                        | Inr c \<Rightarrow>
                           (if b' = c then Inr repeatMessage
                            else repeatingCharsValidator_for password (i + 1))))
                 else repeatingCharsValidator_for password (i + 1))))
      else Inr '''')"
  by pat_completeness auto
termination
  by (relation "measure (\<lambda>(password, i). nat (len password - i))") auto

declare repeatingCharsValidator_for.simps [simp del]

definition repeatingCharsValidator :: Validator where
  "repeatingCharsValidator password = repeatingCharsValidator_for password 2"

section \<open>The engine\<close>

text \<open>
  \<^verbatim>\<open>validatePassword\<close>: \<open>errors\<close> starts as the nil slice and grows by
  \<^verbatim>\<open>append\<close>; a rule that panics ends the call with its panic.
\<close>

fun validatePassword_range :: "string \<Rightarrow> Validator list \<Rightarrow> string list \<Rightarrow> fault + string list" where
  "validatePassword_range password [] errors = Inr errors"
| "validatePassword_range password (validator # rest) errors =
     (case validator password of
        Inl f \<Rightarrow> Inl f
      | Inr err \<Rightarrow>
          if err \<noteq> '''' then validatePassword_range password rest (errors @ [err])
          else validatePassword_range password rest errors)"

definition validatePassword :: "string \<Rightarrow> Validator list \<Rightarrow> fault + string list" where
  "validatePassword password validators = validatePassword_range password validators []"

definition validators :: "unicode_tables \<Rightarrow> Validator list" where
  "validators T =
     [lengthValidator, uppercaseValidator T, specialCharValidator, digitValidator T,
      spaceValidator, commonPasswordValidator, repeatingCharsValidator]"

section \<open>Rules as Go function values\<close>

text \<open>
  A \<^verbatim>\<open>Validator\<close> is a Go function value: calling it may read and update the
  state of the program (a closure's captured variables, package variables) besides
  returning its diagnostic. With the state \<open>\<sigma>\<close> threaded through the calls,
  \<^verbatim>\<open>validatePassword\<close> is the same loop: it calls the rules in order, each from the
  state the previous call left, and has no variable of its own that outlives the call
  (\<open>errors\<close> is declared inside the function and starts as the nil slice every time).
  \<open>stateless\<close> is a rule that touches no state, as the seven rules of the source are.
\<close>

type_synonym 's Validator_in = "'s \<Rightarrow> string \<Rightarrow> (fault + string) \<times> 's"

definition stateless :: "Validator \<Rightarrow> 's Validator_in" where
  "stateless validator = (\<lambda>\<sigma> password. (validator password, \<sigma>))"

fun validatePassword_in_range ::
  "string \<Rightarrow> 's Validator_in list \<Rightarrow> string list \<Rightarrow> 's \<Rightarrow> (fault + string list) \<times> 's" where
  "validatePassword_in_range password [] errors \<sigma> = (Inr errors, \<sigma>)"
| "validatePassword_in_range password (validator # rest) errors \<sigma> =
     (case validator \<sigma> password of
        (Inl f, \<sigma>') \<Rightarrow> (Inl f, \<sigma>')
      | (Inr err, \<sigma>') \<Rightarrow>
          if err \<noteq> '''' then validatePassword_in_range password rest (errors @ [err]) \<sigma>'
          else validatePassword_in_range password rest errors \<sigma>')"

definition validatePassword_in ::
  "string \<Rightarrow> 's Validator_in list \<Rightarrow> 's \<Rightarrow> (fault + string list) \<times> 's" where
  "validatePassword_in password rules \<sigma> = validatePassword_in_range password rules [] \<sigma>"


section \<open>The length check of the menu program\<close>

text \<open>
  \<^verbatim>\<open>checkLength\<close> of \<^verbatim>\<open>main.go\<close> reads a token from standard input and compares
  its length with 5. It returns a \<^verbatim>\<open>bool\<close>, no diagnostic, and nothing calls it: it is
  not one of the rules. The token read is the argument here.
\<close>

definition checkLength :: "string \<Rightarrow> bool" where
  "checkLength password = (len password \<ge> 5)"

section \<open>Runs of three\<close>

text \<open>
  Three equal consecutive elements somewhere in a list: of bytes when applied to the
  string itself, of code points when applied to \<^term>\<open>runes password\<close>.
\<close>

fun run_of_three :: "'a list \<Rightarrow> bool" where
  "run_of_three (a # b # c # xs) = ((a = b \<and> b = c) \<or> run_of_three (b # c # xs))"
| "run_of_three _ = False"

section \<open>Facts about the engine\<close>

lemma validatePassword_range_returns:
  "map (\<lambda>v. v password) vs = map Inr ms \<Longrightarrow>
   validatePassword_range password vs errors = Inr (errors @ filter (\<lambda>m. m \<noteq> '''') ms)"
proof (induction vs arbitrary: ms errors)
  case Nil
  then show ?case by simp
next
  case (Cons v vs)
  then obtain m ms' where ms: "ms = m # ms'" and v: "v password = Inr m"
    and rest: "map (\<lambda>v. v password) vs = map Inr ms'"
    by (cases ms) auto
  show ?case
    using Cons.IH [OF rest] by (simp add: ms v)
qed

lemma no_fault_diagnostics:
  "\<forall>v\<in>set vs. \<not> isl (v password) \<Longrightarrow>
   map (\<lambda>v. v password) vs = map Inr (map (\<lambda>v. projr (v password)) vs)"
  by (induction vs) (auto simp: sum.collapse(2))


lemma validatePassword_in_stateless:
  "validatePassword_in password (map stateless rules) \<sigma> = (validatePassword password rules, \<sigma>)"
proof -
  have "validatePassword_in_range password (map stateless rules) errors \<sigma>
      = (validatePassword_range password rules errors, \<sigma>)" for errors
    by (induction rules arbitrary: errors) (auto simp: stateless_def split: sum.splits)
  then show ?thesis
    by (simp add: validatePassword_in_def validatePassword_def)
qed

text \<open>
  A rule with hidden state is not repeatable: this one passes an input the first time
  and fails it from then on.
\<close>

lemma validatePassword_in_hidden_state:
  "fst (validatePassword_in ''a''
          [\<lambda>\<sigma> password. (Inr (if \<sigma> then ''seen before'' else ''''), True)] False) = Inr []
   \<and> fst (validatePassword_in ''a''
          [\<lambda>\<sigma> password. (Inr (if \<sigma> then ''seen before'' else ''''), True)]
          (snd (validatePassword_in ''a''
            [\<lambda>\<sigma> password. (Inr (if \<sigma> then ''seen before'' else ''''), True)] False)))
       = Inr [''seen before'']"
  by (simp add: validatePassword_in_def)


section \<open>Facts about the repeat-run loop\<close>

lemma string_index_in_range:
  "0 \<le> i \<Longrightarrow> i < len s \<Longrightarrow> string_index s i = Inr (s ! nat i)"
  by (simp add: string_index_def)

lemma repeatingCharsValidator_for_result:
  assumes "2 \<le> i"
  shows "repeatingCharsValidator_for password i =
    Inr (if \<exists>j. i \<le> j \<and> j < len password \<and> password ! nat j = password ! nat (j - 1)
              \<and> password ! nat (j - 1) = password ! nat (j - 2)
         then repeatMessage else '''')"
  using assms
proof (induction password i rule: repeatingCharsValidator_for.induct)
  case (1 password i)
  let ?hit = "\<lambda>j. password ! nat j = password ! nat (j - 1)
    \<and> password ! nat (j - 1) = password ! nat (j - 2)"
  show ?case
  proof (cases "i < len password")
    case False
    then show ?thesis
      by (subst repeatingCharsValidator_for.simps) auto
  next
    case True
    with "1.prems" have idx:
      "string_index password i = Inr (password ! nat i)"
      "string_index password (i - 1) = Inr (password ! nat (i - 1))"
      "string_index password (i - 2) = Inr (password ! nat (i - 2))"
      by (simp_all add: string_index_in_range)
    show ?thesis
    proof (cases "?hit i")
      case hit: True
      with True have "\<exists>j. i \<le> j \<and> j < len password \<and> ?hit j" by blast
      then show ?thesis
        using True hit by (subst repeatingCharsValidator_for.simps) (simp add: idx)
    next
      case miss: False
      have shift: "(\<exists>j. i \<le> j \<and> j < len password \<and> ?hit j)
        \<longleftrightarrow> (\<exists>j. i + 1 \<le> j \<and> j < len password \<and> ?hit j)"
      proof
        assume "\<exists>j. i \<le> j \<and> j < len password \<and> ?hit j"
        then obtain j where j: "i \<le> j" "j < len password" "?hit j" by blast
        with miss have "j \<noteq> i" by blast
        with j have "i + 1 \<le> j" by simp
        with j show "\<exists>j. i + 1 \<le> j \<and> j < len password \<and> ?hit j" by blast
      next
        assume "\<exists>j. i + 1 \<le> j \<and> j < len password \<and> ?hit j"
        then obtain j where "i + 1 \<le> j" "j < len password" "?hit j" by blast
        moreover then have "i \<le> j" by simp
        ultimately show "\<exists>j. i \<le> j \<and> j < len password \<and> ?hit j" by blast
      qed
      have next_i: "2 \<le> i + 1" using "1.prems" by simp
      have rec: "repeatingCharsValidator_for password (i + 1) =
        Inr (if \<exists>j. i + 1 \<le> j \<and> j < len password \<and> ?hit j then repeatMessage else '''')"
      proof (cases "password ! nat i = password ! nat (i - 1)")
        case True
        with miss have "password ! nat (i - 1) \<noteq> password ! nat (i - 2)" by simp
        then show ?thesis
          using "1.IH"(1) [OF \<open>i < len password\<close> idx(1) idx(2) True idx(2) idx(3) _ next_i]
          by simp
      next
        case False
        then show ?thesis
          using "1.IH"(2) [OF \<open>i < len password\<close> idx(1) idx(2) _ next_i] by simp
      qed
      have "repeatingCharsValidator_for password i = repeatingCharsValidator_for password (i + 1)"
        using True miss by (subst repeatingCharsValidator_for.simps) (auto simp: idx)
      then show ?thesis
        by (simp only: rec shift)
    qed
  qed
qed

lemma run_of_three_index:
  "(\<exists>j. 2 \<le> j \<and> j < len password \<and> password ! nat j = password ! nat (j - 1)
      \<and> password ! nat (j - 1) = password ! nat (j - 2))
   \<longleftrightarrow> (\<exists>k. k + 2 < length password \<and> password ! k = password ! (k + 1)
      \<and> password ! (k + 1) = password ! (k + 2))"
proof
  assume "\<exists>j. 2 \<le> j \<and> j < len password \<and> password ! nat j = password ! nat (j - 1)
      \<and> password ! nat (j - 1) = password ! nat (j - 2)"
  then obtain j where j: "2 \<le> j" "j < len password" "password ! nat j = password ! nat (j - 1)"
    "password ! nat (j - 1) = password ! nat (j - 2)" by blast
  define k where "k = nat (j - 2)"
  have "nat j = k + 2" "nat (j - 1) = k + 1" "nat (j - 2) = k" using j(1) by (simp_all add: k_def)
  with j show "\<exists>k. k + 2 < length password \<and> password ! k = password ! (k + 1)
      \<and> password ! (k + 1) = password ! (k + 2)"
    by (auto simp: len_def intro!: exI [of _ k])
next
  assume "\<exists>k. k + 2 < length password \<and> password ! k = password ! (k + 1)
      \<and> password ! (k + 1) = password ! (k + 2)"
  then obtain k where k: "k + 2 < length password" "password ! k = password ! (k + 1)"
    "password ! (k + 1) = password ! (k + 2)" by blast
  have "nat (int k + 2) = k + 2" "nat (int k + 2 - 1) = k + 1" "nat (int k + 2 - 2) = k"
    by simp_all
  with k show "\<exists>j. 2 \<le> j \<and> j < len password \<and> password ! nat j = password ! nat (j - 1)
      \<and> password ! nat (j - 1) = password ! nat (j - 2)"
    by (auto simp: len_def intro!: exI [of _ "int k + 2"])
qed

section \<open>Facts about decoding\<close>

lemma byte_inj: "byte c = byte d \<longleftrightarrow> c = d"
  by (simp add: byte_def)

lemma decoderune_width:
  assumes "decoderune s = (r, w)"
  shows "w = 1 \<or> w = 2 \<and> 1 < length s \<and> continuation (s ! 1)
    \<or> w = 3 \<and> 2 < length s \<and> continuation (s ! 1) \<and> continuation (s ! 2)
    \<or> w = 4 \<and> 3 < length s \<and> continuation (s ! 1) \<and> continuation (s ! 2) \<and> continuation (s ! 3)"
  using assms by (auto simp: decoderune_def Let_def split: if_splits)

lemma decoderune_rune:
  assumes "decoderune s = (r, w)"
  shows "RuneSelf \<le> r"
  using assms by (auto simp: decoderune_def Let_def RuneSelf_def RuneError_def split: if_splits)

lemma decoderune_consumes:
  assumes "decoderune s = (r, w)" and "s \<noteq> []" and "RuneSelf \<le> byte (s ! 0)"
  shows "w \<le> length s \<and> (\<forall>c\<in>set (take w s). RuneSelf \<le> byte c)"
proof -
  have len: "0 < length s" using assms(2) by simp
  from decoderune_width [OF assms(1)] show ?thesis
  proof (elim disjE conjE)
    assume "w = 1"
    with len assms(3) show ?thesis
      by (cases s) auto
  next
    assume w: "w = 2" and "1 < length s" "continuation (s ! 1)"
    then obtain a b t where "s = a # b # t" by (cases s; cases "tl s") auto
    with w assms(3) \<open>continuation (s ! 1)\<close> show ?thesis
      by (auto simp: continuation_def RuneSelf_def)
  next
    assume w: "w = 3" and "2 < length s" and c: "continuation (s ! 1)" "continuation (s ! 2)"
    then obtain a b c t where "s = a # b # c # t"
      by (cases s; cases "tl s"; cases "tl (tl s)") auto
    with w assms(3) c show ?thesis
      by (auto simp: continuation_def RuneSelf_def numeral_3_eq_3)
  next
    assume w: "w = 4" and "3 < length s"
      and c: "continuation (s ! 1)" "continuation (s ! 2)" "continuation (s ! 3)"
    then obtain a b c d t where "s = a # b # c # d # t"
      by (cases s; cases "tl s"; cases "tl (tl s)"; cases "tl (tl (tl s))") auto
    with w assms(3) c show ?thesis
      by (auto simp: continuation_def RuneSelf_def numeral_3_eq_3 numeral_eq_Suc)
  qed
qed

lemma runes_ascii:
  assumes "r < RuneSelf"
  shows "r \<in> set (runes s) \<longleftrightarrow> r \<in> byte ` set s"
proof (induction s rule: runes.induct)
  case (1 s)
  show ?case
  proof (cases "s = []")
    case True
    then show ?thesis by (subst runes.simps) simp
  next
    case False
    then obtain c cs where s: "s = c # cs" by (cases s) auto
    show ?thesis
    proof (cases "byte (s ! 0) < RuneSelf")
      case True
      have "runes s = byte c # runes cs"
        using True s by (subst runes.simps) simp
      moreover have "r \<in> set (runes cs) \<longleftrightarrow> r \<in> byte ` set cs"
        using "1.IH"(1) [OF False True] s by simp
      ultimately show ?thesis by (simp add: s)
    next
      case high: False
      obtain r' w where d: "decoderune s = (r', w)" by (cases "decoderune s")
      have run: "runes s = r' # runes (drop w s)"
        using False high d by (subst runes.simps) simp
      have "RuneSelf \<le> r'" using d by (rule decoderune_rune)
      with assms have ne: "r \<noteq> r'" by simp
      have cons: "w \<le> length s" "\<forall>c\<in>set (take w s). RuneSelf \<le> byte c"
        using decoderune_consumes [OF d False] high by simp_all
      have "set s = set (take w s) \<union> set (drop w s)"
        by (metis append_take_drop_id set_append)
      then have "r \<in> byte ` set s \<longleftrightarrow> r \<in> byte ` set (drop w s)"
        using cons(2) assms by auto
      moreover have "r \<in> set (runes (drop w s)) \<longleftrightarrow> r \<in> byte ` set (drop w s)"
        using "1.IH"(2) [OF False high d [symmetric]] .
      ultimately show ?thesis by (simp add: run ne)
    qed
  qed
qed

lemma runes_of_ascii:
  "\<forall>c\<in>set s. byte c < RuneSelf \<Longrightarrow> runes s = map byte s"
proof (induction s)
  case Nil
  show ?case by (subst runes.simps) simp
next
  case (Cons c cs)
  then show ?case by (subst runes.simps) simp
qed

lemma specialCharClass_ascii: "c \<in> set specialCharClass \<Longrightarrow> byte c < RuneSelf"
  by (auto simp: specialCharClass_def byte_def RuneSelf_def)

lemma re_MatchString_bytes:
  "re_MatchString s \<longleftrightarrow> (\<exists>c\<in>set s. c \<in> set specialCharClass)"
proof -
  have "re_MatchString s \<longleftrightarrow> (\<exists>d\<in>set specialCharClass. byte d \<in> set (runes s))"
    by (auto simp: re_MatchString_def list_ex_iff)
  also have "\<dots> \<longleftrightarrow> (\<exists>d\<in>set specialCharClass. byte d \<in> byte ` set s)"
    using runes_ascii [OF specialCharClass_ascii] by blast
  also have "\<dots> \<longleftrightarrow> (\<exists>c\<in>set s. c \<in> set specialCharClass)"
    by (auto simp: byte_inj)
  finally show ?thesis .
qed

lemma strings_Contains_single: "strings_Contains s [c] \<longleftrightarrow> c \<in> set s"
  by (induction s) auto

lemma run_of_three_nth:
  "run_of_three xs \<longleftrightarrow>
   (\<exists>k. k + 2 < length xs \<and> xs ! k = xs ! (k + 1) \<and> xs ! (k + 1) = xs ! (k + 2))"
proof (induction xs rule: run_of_three.induct)
  case (1 a b c xs)
  let ?ys = "a # b # c # xs"
  let ?P = "\<lambda>zs k. k + 2 < length zs \<and> zs ! k = zs ! (k + 1) \<and> zs ! (k + 1) = zs ! (k + 2)"
  have "(\<exists>k. ?P ?ys k) \<longleftrightarrow> ?P ?ys 0 \<or> (\<exists>k. ?P ?ys (Suc k))"
    by (metis not0_implies_Suc)
  also have "\<dots> \<longleftrightarrow> (a = b \<and> b = c) \<or> (\<exists>k. ?P (b # c # xs) k)"
    by simp
  finally show ?case using "1.IH" by simp
qed simp_all

lemma run_of_three_map_inj:
  "inj f \<Longrightarrow> run_of_three (map f xs) = run_of_three xs"
  by (induction xs rule: run_of_three.induct) (auto simp: inj_eq)

lemma repeatingCharsValidator_bytes:
  "repeatingCharsValidator password =
     Inr (if run_of_three password then repeatMessage else '''')"
proof -
  have "repeatingCharsValidator_for password 2 =
    Inr (if \<exists>j. 2 \<le> j \<and> j < len password \<and> password ! nat j = password ! nat (j - 1)
              \<and> password ! nat (j - 1) = password ! nat (j - 2)
         then repeatMessage else '''')"
    by (rule repeatingCharsValidator_for_result) simp
  then show ?thesis
    by (simp only: repeatingCharsValidator_def run_of_three_index run_of_three_nth)
qed

lemma repeatingCharsValidator_ascii:
  assumes "\<forall>c\<in>set password. byte c < RuneSelf"
  shows "repeatingCharsValidator password =
     Inr (if run_of_three (runes password) then repeatMessage else '''')"
proof -
  have "inj byte" by (simp add: inj_def byte_inj)
  then show ?thesis
    by (simp add: repeatingCharsValidator_bytes runes_of_ascii [OF assms] run_of_three_map_inj)
qed

lemma loop_from_zero_panics:
  "repeatingCharsValidator_for ''a'' 0 = Inl IndexOutOfRange"
  by code_simp

lemma checkLength_threshold: "checkLength password \<longleftrightarrow> 5 \<le> length password"
  by (simp add: checkLength_def len_def)

section \<open>The engine collects every diagnostic\<close>

text \<open>
  C1. Let \<open>ms\<close> be the diagnostics the registered rules return on the input, in
  registration order (no rule panics). Then \<open>validatePassword\<close> returns exactly the
  non-empty ones among \<open>ms\<close>, in that order, whatever precedes them: a failing rule
  does not end the loop. The result is a function of the input and the rule list, and
  it is empty exactly when every rule returned the empty diagnostic.
\<close>

theorem validatePassword_collects:
  assumes "map (\<lambda>validator. validator password) rules = map Inr ms"
  shows "validatePassword password rules = Inr (filter (\<lambda>err. err \<noteq> '''') ms)
    \<and> (validatePassword password rules = Inr [] \<longleftrightarrow> (\<forall>err\<in>set ms. err = ''''))"
  using validatePassword_range_returns [OF assms, of "[]"]
  by (auto simp: validatePassword_def filter_empty_conv)

theorem validatePassword_collects_witness:
  "map (\<lambda>validator. validator ''admin'')
       [lengthValidator, spaceValidator, commonPasswordValidator, repeatingCharsValidator]
     = map Inr [''Password must be at least 8 characters long.'', '''',
                ''Password is too common.'', '''']
   \<and> validatePassword ''admin''
       [lengthValidator, spaceValidator, commonPasswordValidator, repeatingCharsValidator]
     = Inr [''Password must be at least 8 characters long.'', ''Password is too common.'']"
proof -
  have rules: "map (\<lambda>validator. validator ''admin'')
       [lengthValidator, spaceValidator, commonPasswordValidator, repeatingCharsValidator]
     = map Inr [''Password must be at least 8 characters long.'', '''',
                ''Password is too common.'', '''']"
    by code_simp
  show ?thesis
    using rules validatePassword_collects [OF rules] by simp
qed

section \<open>The minimum-length rule\<close>

text \<open>
  C2. For every input whose length \<^verbatim>\<open>len(password)\<close> is less than 8 the minimum-length
  rule returns its diagnostic, and for every input of length 8 or more it returns the
  empty diagnostic; it never panics. The length is the one Go's \<^verbatim>\<open>len\<close> gives, the
  number of bytes.
\<close>

theorem lengthValidator_iff:
  "lengthValidator password =
     Inr (if length password < 8 then ''Password must be at least 8 characters long.'' else '''')"
  by (simp add: lengthValidator_def len_def)

theorem lengthValidator_iff_witness:
  "lengthValidator ''short'' = Inr ''Password must be at least 8 characters long.''
   \<and> lengthValidator ''longenough'' = Inr ''''"
  using lengthValidator_iff [of "''short''"] lengthValidator_iff [of "''longenough''"]
  by simp

section \<open>The repeat-run rule\<close>

text \<open>
  C3. The claim is that the repeat-run rule returns its diagnostic exactly when some
  character occurs three or more times in a row. The rule compares bytes
  (\<open>repeatingCharsValidator_bytes\<close>), which is the same thing on ASCII input
  (\<open>repeatingCharsValidator_ascii\<close>) and is not on multi-byte characters. The input
  of three times U+00E9 (six bytes \<open>C3 A9 C3 A9 C3 A9\<close>) has a character three times
  in a row and gets no diagnostic; the input of the single character U+10410 (four bytes
  \<open>F0 90 90 90\<close>) has no repeated character and gets the diagnostic.
\<close>

theorem repeatingCharsValidator_multibyte:
  "runes [CHR 0xC3, CHR 0xA9, CHR 0xC3, CHR 0xA9, CHR 0xC3, CHR 0xA9] = [0xE9, 0xE9, 0xE9]
   \<and> run_of_three (runes [CHR 0xC3, CHR 0xA9, CHR 0xC3, CHR 0xA9, CHR 0xC3, CHR 0xA9])
   \<and> repeatingCharsValidator [CHR 0xC3, CHR 0xA9, CHR 0xC3, CHR 0xA9, CHR 0xC3, CHR 0xA9] = Inr ''''
   \<and> runes [CHR 0xF0, CHR 0x90, CHR 0x90, CHR 0x90] = [0x10410]
   \<and> \<not> run_of_three (runes [CHR 0xF0, CHR 0x90, CHR 0x90, CHR 0x90])
   \<and> repeatingCharsValidator [CHR 0xF0, CHR 0x90, CHR 0x90, CHR 0x90] = Inr repeatMessage"
  by code_simp

section \<open>Short inputs and the empty string\<close>

text \<open>
  The repeat-run rule performs no out-of-range access on any input: it always returns.
  On every input shorter than 3 bytes the loop body does not run and the rule returns
  the empty diagnostic. On the empty string \<open>validatePassword\<close> with the seven rules
  does not panic and returns the diagnostics of the four content rules: minimum length,
  uppercase, special character, digit.
\<close>

lemma repeatingCharsValidator_short_input:
  "(\<exists>err. repeatingCharsValidator password = Inr err)
   \<and> (length password < 3 \<longrightarrow> repeatingCharsValidator password = Inr '''')
   \<and> validatePassword '''' (validators T) =
       Inr [''Password must be at least 8 characters long.'',
            ''Password must contain at least one uppercase letter.'',
            ''Password must include at least one special character.'',
            ''Password must contain at least one digit.'']"
proof (intro conjI impI)
  show "\<exists>err. repeatingCharsValidator password = Inr err"
    by (simp add: repeatingCharsValidator_bytes)
next
  assume "length password < 3"
  then have "\<not> run_of_three password"
    by (simp add: run_of_three_nth)
  then show "repeatingCharsValidator password = Inr ''''"
    by (simp add: repeatingCharsValidator_bytes)
next
  show "validatePassword '''' (validators T) =
       Inr [''Password must be at least 8 characters long.'',
            ''Password must contain at least one uppercase letter.'',
            ''Password must include at least one special character.'',
            ''Password must contain at least one digit.'']"
    by code_simp
qed

lemma repeatingCharsValidator_short_input_example:
  "length ''ab'' < 3 \<and> repeatingCharsValidator ''ab'' = Inr ''''
   \<and> repeatingCharsValidator [CHR 0xC3, CHR 0xA9, CHR 0xC3, CHR 0xA9] = Inr ''''"
  using repeatingCharsValidator_short_input [of "''ab''"]
  by (simp add: repeatingCharsValidator_bytes)

text \<open>
  C4. The claim is that on the empty string validation does not fault, that the
  repeat-run rule performs no out-of-range access on an input shorter than 3 characters
  and returns no diagnostic for it, and that the empty string gets the diagnostics of
  the four content rules. The first and the last hold, and no input makes the rule
  index out of range (\<open>repeatingCharsValidator_short_input\<close>). The middle does not:
  the input of the single character U+10410 (four bytes \<open>F0 90 90 90\<close>) is shorter
  than 3 characters, and the rule, comparing bytes, returns its diagnostic for it.
\<close>

theorem repeatingCharsValidator_one_character:
  "runes [CHR 0xF0, CHR 0x90, CHR 0x90, CHR 0x90] = [0x10410]
   \<and> length (runes [CHR 0xF0, CHR 0x90, CHR 0x90, CHR 0x90]) < 3
   \<and> repeatingCharsValidator [CHR 0xF0, CHR 0x90, CHR 0x90, CHR 0x90] =
       Inr ''Password must not have more than 2 repeated characters in a row.''"
  by code_simp


section \<open>The special-character rule\<close>

text \<open>
  C5. The special-character rule returns its diagnostic exactly when the input contains
  no character of the class \<^verbatim>\<open>!@#$%^&*(),.?":{}|<>\<close>, and the empty diagnostic when it
  contains one. The characters of the class are ASCII, so a code point of the input is in
  the class exactly when a byte of the input is.
\<close>

theorem specialCharValidator_iff:
  \<open>specialCharValidator password =
     Inr (if \<exists>r\<in>set (runes password). r \<in> byte ` set ''!@#$%^&*(),.?":{}|<>''
          then '''' else ''Password must include at least one special character.'')
   \<and> ((\<exists>r\<in>set (runes password). r \<in> byte ` set ''!@#$%^&*(),.?":{}|<>'')
        \<longleftrightarrow> (\<exists>c\<in>set password. c \<in> set ''!@#$%^&*(),.?":{}|<>''))\<close>
proof -
  have "re_MatchString password
      \<longleftrightarrow> (\<exists>r\<in>set (runes password). r \<in> byte ` set specialCharClass)"
    by (simp add: re_MatchString_def list_ex_iff)
  then show ?thesis
    using re_MatchString_bytes [of password]
    by (simp add: specialCharValidator_def flip: specialCharClass_def)
qed

theorem specialCharValidator_iff_witness:
  "specialCharValidator ''Pa$$w0rd'' = Inr ''''
   \<and> specialCharValidator ''Passw0rd'' = Inr ''Password must include at least one special character.''"
proof -
  have \<open>\<exists>c\<in>set ''Pa$$w0rd''. c \<in> set ''!@#$%^&*(),.?":{}|<>''\<close> by simp
  moreover have \<open>\<not> (\<exists>c\<in>set ''Passw0rd''. c \<in> set ''!@#$%^&*(),.?":{}|<>'')\<close> by simp
  ultimately show ?thesis
    using specialCharValidator_iff [of "''Pa$$w0rd''"] specialCharValidator_iff [of "''Passw0rd''"]
    by simp
qed

section \<open>Permuting the rules\<close>

text \<open>
  C6. For every input and every two rule lists that are permutations of each other
  (no rule panicking on the input), \<open>validatePassword\<close> returns on both, and the two
  results contain the same diagnostics: the same set, and each diagnostic the same
  number of times. Only their order may differ.
\<close>

theorem validatePassword_permutation:
  assumes perm: "mset validators1 = mset validators2"
    and returns: "\<forall>validator\<in>set validators1. \<not> isl (validator password)"
  shows "\<exists>errors1 errors2.
      validatePassword password validators1 = Inr errors1
    \<and> validatePassword password validators2 = Inr errors2
    \<and> set errors1 = set errors2 \<and> mset errors1 = mset errors2"
proof -
  let ?d = "\<lambda>validator. projr (validator password)"
  let ?keep = "filter (\<lambda>err. err \<noteq> '''')"
  have "set validators2 = set validators1"
    using perm by (rule mset_eq_setD [symmetric])
  with returns have returns2: "\<forall>validator\<in>set validators2. \<not> isl (validator password)"
    by simp
  have r1: "validatePassword password validators1 = Inr (?keep (map ?d validators1))"
    using validatePassword_range_returns [OF no_fault_diagnostics [OF returns], of "[]"]
    by (simp add: validatePassword_def)
  have r2: "validatePassword password validators2 = Inr (?keep (map ?d validators2))"
    using validatePassword_range_returns [OF no_fault_diagnostics [OF returns2], of "[]"]
    by (simp add: validatePassword_def)
  have same: "mset (?keep (map ?d validators1)) = mset (?keep (map ?d validators2))"
    by (simp add: perm)
  then have "set (?keep (map ?d validators1)) = set (?keep (map ?d validators2))"
    by (rule mset_eq_setD)
  with r1 r2 same show ?thesis by blast
qed

theorem validatePassword_permutation_witness:
  "validatePassword ''a b'' [lengthValidator, spaceValidator, commonPasswordValidator] =
     Inr [''Password must be at least 8 characters long.'', ''Password must not contain spaces.'']
   \<and> validatePassword ''a b'' [spaceValidator, commonPasswordValidator, lengthValidator] =
     Inr [''Password must not contain spaces.'', ''Password must be at least 8 characters long.'']
   \<and> (\<exists>errors1 errors2.
        validatePassword ''a b'' [lengthValidator, spaceValidator, commonPasswordValidator] = Inr errors1
      \<and> validatePassword ''a b'' [spaceValidator, commonPasswordValidator, lengthValidator] = Inr errors2
      \<and> set errors1 = set errors2 \<and> mset errors1 = mset errors2)"
proof -
  have perm: "mset [lengthValidator, spaceValidator, commonPasswordValidator]
    = mset [spaceValidator, commonPasswordValidator, lengthValidator]"
    by (simp add: add_mset_commute)
  have returns: "\<forall>validator\<in>set [lengthValidator, spaceValidator, commonPasswordValidator].
      \<not> isl (validator ''a b'')"
    by (simp add: lengthValidator_def spaceValidator_def commonPasswordValidator_def)
  have "validatePassword ''a b'' [lengthValidator, spaceValidator, commonPasswordValidator] =
     Inr [''Password must be at least 8 characters long.'', ''Password must not contain spaces.'']"
    by code_simp
  moreover have "validatePassword ''a b'' [spaceValidator, commonPasswordValidator, lengthValidator] =
     Inr [''Password must not contain spaces.'', ''Password must be at least 8 characters long.'']"
    by code_simp
  ultimately show ?thesis
    using validatePassword_permutation [OF perm returns] by simp
qed

section \<open>Repeated validation\<close>




section \<open>The seven rules on a fixed input\<close>

text \<open>
  C8. With the seven rules registered in their order, \<open>validatePassword\<close> on the
  input \<^verbatim>\<open>aaa\<close> returns exactly five diagnostics, those of the minimum-length,
  uppercase, special-character, digit and repeat-run rules in this order; the
  whitespace and common-password rules contribute nothing.
\<close>

theorem validatePassword_aaa:
  "validatePassword ''aaa'' (validators T) =
     Inr [''Password must be at least 8 characters long.'',
          ''Password must contain at least one uppercase letter.'',
          ''Password must include at least one special character.'',
          ''Password must contain at least one digit.'',
          ''Password must not have more than 2 repeated characters in a row.'']"
  by code_simp

section \<open>Bytes, not code points, in the minimum-length rule\<close>

text \<open>
  C9. The minimum-length rule passes an input exactly when it has 8 bytes or more,
  whatever the number of its code points: the nine bytes
  \<open>E6 97 A5 E6 9C AC E8 AA 9E\<close> are the three characters U+65E5 U+672C U+8A9E, fewer
  than 8, and the rule returns no diagnostic for them.
\<close>

theorem lengthValidator_measures_bytes:
  "(lengthValidator password = Inr '''' \<longleftrightarrow> 8 \<le> length password)
   \<and> runes [CHR 0xE6, CHR 0x97, CHR 0xA5, CHR 0xE6, CHR 0x9C, CHR 0xAC, CHR 0xE8, CHR 0xAA, CHR 0x9E]
       = [0x65E5, 0x672C, 0x8A9E]
   \<and> length (runes [CHR 0xE6, CHR 0x97, CHR 0xA5, CHR 0xE6, CHR 0x9C, CHR 0xAC, CHR 0xE8, CHR 0xAA, CHR 0x9E]) < 8
   \<and> lengthValidator [CHR 0xE6, CHR 0x97, CHR 0xA5, CHR 0xE6, CHR 0x9C, CHR 0xAC, CHR 0xE8, CHR 0xAA, CHR 0x9E]
       = Inr ''''"
proof (intro conjI)
  show "lengthValidator password = Inr '''' \<longleftrightarrow> 8 \<le> length password"
    by (auto simp: lengthValidator_def len_def)
qed code_simp+

section \<open>The no-whitespace rule\<close>

text \<open>
  C10. The no-whitespace rule returns its diagnostic exactly when the input contains the
  byte \<open>0x20\<close>, which is exactly when the code point U+0020 is among its characters.
  An input with tabs, newlines or other white space and no U+0020 gets the empty
  diagnostic.
\<close>

theorem spaceValidator_iff:
  "spaceValidator password =
     Inr (if CHR 0x20 \<in> set password then ''Password must not contain spaces.'' else '''')
   \<and> (CHR 0x20 \<in> set password \<longleftrightarrow> 0x20 \<in> set (runes password))"
proof -
  have "(0x20 :: int) < RuneSelf" by (simp add: RuneSelf_def)
  then have "0x20 \<in> set (runes password) \<longleftrightarrow> 0x20 \<in> byte ` set password"
    by (rule runes_ascii)
  also have "\<dots> \<longleftrightarrow> CHR 0x20 \<in> set password"
  proof -
    have space: "byte (CHR 0x20) = 0x20" by (simp add: byte_def)
    have "byte (CHR 0x20) \<in> byte ` set password \<longleftrightarrow> CHR 0x20 \<in> set password"
      by (rule inj_image_mem_iff) (simp add: inj_def byte_inj)
    then show ?thesis by (simp only: space)
  qed
  finally show ?thesis
    by (simp add: spaceValidator_def strings_Contains_single)
qed

theorem spaceValidator_iff_witness:
  "spaceValidator [CHR ''a'', CHR 0x09, CHR ''b'', CHR 0x0A, CHR 0xC2, CHR 0xA0] = Inr ''''
   \<and> spaceValidator ''a b'' = Inr ''Password must not contain spaces.''"
  using spaceValidator_iff [of "[CHR ''a'', CHR 0x09, CHR ''b'', CHR 0x0A, CHR 0xC2, CHR 0xA0]"]
    spaceValidator_iff [of "''a b''"]
  by simp

end
